theory Spec2Isabelle
  imports Main
begin

section \<open>JavaScript values\<close>

text \<open>
  The scoring code works on integer-valued JavaScript numbers. A number is an IEEE
  double; an integer-valued one is modelled by the \<open>int\<close> it denotes. A value of type
  \<open>number | null\<close> is an \<open>int option\<close>, \<open>None\<close> standing for \<open>null\<close> (and, as the
  result of a property read, for \<open>undefined\<close>).
\<close>

definition or_zero :: "int option \<Rightarrow> int" where
  \<comment> \<open>\<^verbatim>\<open>x || 0\<close>: null, undefined and 0 are falsy.\<close>
  "or_zero x = (case x of None \<Rightarrow> 0 | Some v \<Rightarrow> (if v = 0 then 0 else v))"

text \<open>
  The sum of two doubles is the exact sum rounded to the nearest double, ties to the even
  mantissa. A double has 53 significant bits: an integer of bit length \<open>l > 53\<close> is a
  double when it is a multiple of \<open>2 ^ (l - 53)\<close>, every integer up to \<open>2 ^ 53\<close> in
  magnitude is one. (A sum of magnitude \<open>2 ^ 1024\<close> would be \<^verbatim>\<open>Infinity\<close>; with one summand
  a table value and the other a double the scoring sums stay below it.)
\<close>

function bit_length :: "int \<Rightarrow> nat" where
  "bit_length n = (if n \<le> 0 then 0 else Suc (bit_length (n div 2)))"
  by pat_completeness auto
termination
  by (relation "measure nat") auto

declare bit_length.simps [simp del]

definition ulp :: "int \<Rightarrow> int" where
  \<comment> \<open>The distance between neighbouring doubles at the magnitude of \<open>n\<close>.\<close>
  "ulp n = 2 ^ (bit_length \<bar>n\<bar> - 53)"

definition to_double :: "int \<Rightarrow> int" where
  \<comment> \<open>Round to nearest, ties to even.\<close>
  "to_double n =
     (let u = ulp n; q = n div u; r = n mod u in
      if 2 * r < u then q * u
      else if u < 2 * r then (q + 1) * u
      else if even q then q * u
      else (q + 1) * u)"

definition js_add :: "int \<Rightarrow> int \<Rightarrow> int" where
  \<comment> \<open>\<^verbatim>\<open>a + b\<close> on numbers.\<close>
  "js_add a b = to_double (a + b)"

section \<open>Scoring\<close>

text \<open>
  The table literal \<^verbatim>\<open>PLACEMENT_POINTS: Record<number, number>\<close>, written out three times
  in the source (upload handler and both standings aggregations) with the same 32 entries.
\<close>

definition PLACEMENT_POINTS :: "int \<rightharpoonup> int" where
  "PLACEMENT_POINTS = map_of
     [(1, 10), (2, 6), (3, 5), (4, 4), (5, 3), (6, 2), (7, 1), (8, 1),
      (9, 0), (10, 0), (11, 0), (12, 0), (13, 0), (14, 0), (15, 0), (16, 0),
      (17, 0), (18, 0), (19, 0), (20, 0), (21, 0), (22, 0), (23, 0), (24, 0),
      (25, 0), (26, 0), (27, 0), (28, 0), (29, 0), (30, 0), (31, 0), (32, 0)]"

definition table_at :: "int option \<Rightarrow> int option" where
  \<comment> \<open>\<^verbatim>\<open>PLACEMENT_POINTS[x]\<close> for \<open>x\<close> a number or null: the key \<^verbatim>\<open>"null"\<close> is absent.\<close>
  "table_at x = (case x of None \<Rightarrow> None | Some p \<Rightarrow> PLACEMENT_POINTS p)"

definition upload_points :: "int option \<Rightarrow> int \<Rightarrow> int" where
  \<comment> \<open>PlayerDashboard.handleFileUpload, the inline computation:
      \<^verbatim>\<open>const placementPoints = PLACEMENT_POINTS[placement] || 0;
         const points = placementPoints + kills;\<close>
      for \<open>kills\<close> a number and \<open>placement\<close> a number, or \<open>null\<close> or \<open>undefined\<close>
      (\<open>None\<close>). The handler never reaches it with \<open>null\<close> (see \<open>process_file\<close>).\<close>
  "upload_points placement kills =
     (let placementPoints = or_zero (table_at placement) in js_add placementPoints kills)"

definition row_placement_points :: "int option \<Rightarrow> int" where
  \<comment> \<open>Both fetchTeams: \<^verbatim>\<open>PLACEMENT_POINTS[match.placement || 0] || 0\<close>.\<close>
  "row_placement_points placement = or_zero (PLACEMENT_POINTS (or_zero placement))"

text \<open>
  Modelled from the spec: \<^verbatim>\<open>calculatePoints\<close> is imported by ScreenshotVerification from
  \<^verbatim>\<open>@/types/tournament\<close>, a module that is not among the sources. The definition follows
  section 4.1 of the specification: the placement is looked up in the fixed table
  (1 \<open>\<mapsto>\<close> 10, 2 \<open>\<mapsto>\<close> 6, 3 \<open>\<mapsto>\<close> 5, 4 \<open>\<mapsto>\<close> 4, 5 \<open>\<mapsto>\<close> 3, 6 \<open>\<mapsto>\<close> 2, 7 and 8 \<open>\<mapsto>\<close> 1,
  9 and above \<open>\<mapsto>\<close> 0), unknown or out-of-range placements give 0 placement points, and
  the total is the placement points plus one point per kill, a sum of two numbers like
  every sum of the repository's TypeScript.
\<close>

definition calculatePoints :: "int \<Rightarrow> int \<Rightarrow> int" where
  "calculatePoints placement kills =
     js_add
       (if placement = 1 then 10
        else if placement = 2 then 6
        else if placement = 3 then 5
        else if placement = 4 then 4
        else if placement = 5 then 3
        else if placement = 6 then 2
        else if placement = 7 \<or> placement = 8 then 1
        else 0)
       kills"

definition placementTable :: "int \<Rightarrow> int" where
  \<comment> \<open>The eight non-zero rows of the table as the specification prints them.\<close>
  "placementTable p =
     (if p = 1 then 10 else if p = 2 then 6 else if p = 3 then 5 else if p = 4 then 4
      else if p = 5 then 3 else if p = 6 then 2 else if p = 7 then 1 else if p = 8 then 1
      else 0)"

section \<open>Tables and storage\<close>

text \<open>
  An object of the \<^verbatim>\<open>match-screenshots\<close> bucket is named
  \<^verbatim>\<open>${userId}/${Date.now()}_${i}.${fileExt}\<close>; the name is kept as its four components
  instead of the formatted string. The public URL of an object is a function of its name
  and is identified with it.
\<close>

record stored_name =
  owner :: string
  stamp :: nat
  idx :: nat
  ext :: string

record screenshot =
  team_id :: string
  player_id :: string
  day :: int
  screenshot_url :: stored_name
  placement :: "int option"
  kills :: "int option"
  points :: "int option"
  analyzed_at :: nat

datatype db_error = BackendError | CheckViolation

definition day_check :: "int \<Rightarrow> bool" where
  \<comment> \<open>Migration: \<^verbatim>\<open>ADD COLUMN day integer NOT NULL DEFAULT 1 CHECK (day >= 1 AND day <= 3)\<close>.\<close>
  "day_check d = (d \<ge> 1 \<and> d \<le> 3)"

definition add_day_column :: "screenshot list \<Rightarrow> screenshot list" where
  \<comment> \<open>The migration itself: \<^verbatim>\<open>ADD COLUMN day integer NOT NULL DEFAULT 1\<close> gives every
      row that exists at that moment the day 1.\<close>
  "add_day_column rows = map (\<lambda>r. r\<lparr>day := 1\<rparr>) rows"

text \<open>
  The statements the client sends to \<^verbatim>\<open>match_screenshots\<close>. A statement fails as a
  whole, leaving the table as it was, when the backend refuses it for a reason outside
  this model (network, row-level security; the flag \<open>backend_fails\<close>) or when a row it
  writes violates the CHECK constraint of the \<open>day\<close> column.
\<close>

definition insert_screenshot ::
  "bool \<Rightarrow> screenshot \<Rightarrow> screenshot list \<Rightarrow> db_error + screenshot list" where
  "insert_screenshot backend_fails row rows =
     (if backend_fails then Inl BackendError
      else if \<not> day_check (day row) then Inl CheckViolation
      else Inr (rows @ [row]))"

definition update_screenshots ::
  "bool \<Rightarrow> (screenshot \<Rightarrow> bool) \<Rightarrow> (screenshot \<Rightarrow> screenshot) \<Rightarrow> screenshot list
     \<Rightarrow> db_error + screenshot list" where
  "update_screenshots backend_fails sel chg rows =
     (if backend_fails then Inl BackendError
      else if \<not> list_all (\<lambda>r. \<not> sel r \<or> day_check (day (chg r))) rows then Inl CheckViolation
      else Inr (map (\<lambda>r. if sel r then chg r else r) rows))"

definition delete_screenshots ::
  "bool \<Rightarrow> (screenshot \<Rightarrow> bool) \<Rightarrow> screenshot list \<Rightarrow> db_error + screenshot list" where
  "delete_screenshots backend_fails sel rows =
     (if backend_fails then Inl BackendError else Inr (filter (\<lambda>r. \<not> sel r) rows))"

datatype db_op =
    Insert bool screenshot
  | Update bool "screenshot \<Rightarrow> bool" "screenshot \<Rightarrow> screenshot"
  | Delete bool "screenshot \<Rightarrow> bool"

fun apply_db_op :: "db_op \<Rightarrow> screenshot list \<Rightarrow> db_error + screenshot list" where
  "apply_db_op (Insert b row) rows = insert_screenshot b row rows"
| "apply_db_op (Update b sel chg) rows = update_screenshots b sel chg rows"
| "apply_db_op (Delete b sel) rows = delete_screenshots b sel rows"

fun run_db_ops :: "db_op list \<Rightarrow> screenshot list \<Rightarrow> screenshot list" where
  "run_db_ops [] rows = rows"
| "run_db_ops (op # ops) rows =
     (case apply_db_op op rows of
        Inl e \<Rightarrow> run_db_ops ops rows
      | Inr rows' \<Rightarrow> run_db_ops ops rows')"

definition day_options :: "int list" where
  \<comment> \<open>PlayerDashboard, the day Select: items \<^verbatim>\<open>"1"\<close>, \<^verbatim>\<open>"2"\<close>, \<^verbatim>\<open>"3"\<close>, read back
      by \<^verbatim>\<open>onValueChange={(v) => setSelectedDay(parseInt(v))}\<close>.\<close>
  "day_options = [1, 2, 3]"

definition initial_selectedDay :: int where
  \<comment> \<open>\<^verbatim>\<open>useState<number>(1)\<close>\<close>
  "initial_selectedDay = 1"

section \<open>Standings aggregation\<close>

record team =
  team_ident :: string
  team_name :: string

record team_stats =
  stats_id :: string
  stats_name :: string
  totalPoints :: int
  placementPoints :: int
  killPoints :: int
  totalKills :: int
  matchesPlayed :: nat
  firstPlaceWins :: nat

definition teamMatches_of :: "screenshot list option \<Rightarrow> string \<Rightarrow> screenshot list" where
  \<comment> \<open>\<^verbatim>\<open>matchData?.filter((m) => m.team_id === team.id) || []\<close>; the query result is
      \<open>None\<close> when the select failed.\<close>
  "teamMatches_of matchData tid =
     (case matchData of None \<Rightarrow> [] | Some ms \<Rightarrow> filter (\<lambda>m. team_id m = tid) ms)"



definition player_step :: "int \<times> int \<times> int \<Rightarrow> screenshot \<Rightarrow> int \<times> int \<times> int" where
  \<comment> \<open>PlayerDashboard.fetchTeams, one round of \<^verbatim>\<open>teamMatches.forEach\<close> on the
      accumulators (totalKills, totalPoints, placementPoints).\<close>
  "player_step acc m =
     (case acc of (tk, tp, pp) \<Rightarrow>
        (tk + or_zero (kills m), tp + or_zero (points m),
         pp + row_placement_points (placement m)))"

definition player_team_stats :: "screenshot list option \<Rightarrow> team \<Rightarrow> team_stats" where
  "player_team_stats allMatches t =
     (let teamMatches = teamMatches_of allMatches (team_ident t);
          wins = length (filter (\<lambda>m. placement m = Some 1) teamMatches)
      in case foldl player_step (0, 0, 0) teamMatches of
           (tk, tp, pp) \<Rightarrow>
             \<lparr> stats_id = team_ident t, stats_name = team_name t, totalPoints = tp,
               placementPoints = pp, killPoints = tk, totalKills = tk,
               matchesPlayed = length teamMatches, firstPlaceWins = wins \<rparr>)"

definition upload_counts :: "screenshot list option \<Rightarrow> team list \<Rightarrow> (string \<rightharpoonup> nat)" where
  \<comment> \<open>\<^verbatim>\<open>data.forEach((team) => { uploadCounts[team.id] = teamMatches.length })\<close>\<close>
  "upload_counts allMatches ts =
     foldl (\<lambda>uc t. uc(team_ident t \<mapsto> length (teamMatches_of allMatches (team_ident t))))
       Map.empty ts"

section \<open>The player dashboard\<close>

text \<open>
  The part of the world the dashboard reads and writes: its own React state
  (\<open>selectedTournamentId\<close>, \<open>selectedTeamId\<close>, \<open>selectedDay\<close>, \<open>teamUploadCounts\<close>,
  \<open>teams\<close>) and, on the backend, the objects of the storage bucket and the rows of
  \<^verbatim>\<open>match_screenshots\<close>. The progress flags (\<open>uploading\<close>, \<open>analyzing\<close>,
  \<open>uploadProgress\<close>) only drive the display and are left out.
\<close>

record world =
  selectedTournamentId :: string
  selectedTeamId :: string
  selectedDay :: int
  teamUploadCounts :: "string \<rightharpoonup> nat"
  teams :: "team_stats list"
  storage :: "stored_name list"
  match_screenshots :: "screenshot list"

definition fetchTeams_player ::
  "team list option \<Rightarrow> screenshot list option \<Rightarrow> world \<Rightarrow> world" where
  \<comment> \<open>PlayerDashboard.fetchTeams; \<open>teamsData\<close> is \<open>None\<close> when the teams query gave an
      error or no data, \<open>allMatches\<close> is \<open>None\<close> when the screenshots query did.\<close>
  "fetchTeams_player teamsData allMatches w =
     (if selectedTournamentId w = [] then w
      else case teamsData of
             None \<Rightarrow> w
           | Some ts \<Rightarrow>
               w\<lparr> teamUploadCounts := upload_counts allMatches ts,
                  teams := map (player_team_stats allMatches) ts \<rparr>)"

definition currentUploads :: "world \<Rightarrow> nat" where
  \<comment> \<open>\<^verbatim>\<open>teamUploadCounts[selectedTeamId] || 0\<close>\<close>
  "currentUploads w =
     (case teamUploadCounts w (selectedTeamId w) of
        None \<Rightarrow> 0
      | Some n \<Rightarrow> (if n = 0 then 0 else n))"

record js_file =
  file_name :: string
  file_type :: string

datatype js_value = Undefined | Null | Num int

datatype analysis_result =
    AnalysisError
  | AnalysisNoData
  | AnalysisData js_value js_value

text \<open>
  What the outside answers while one file is processed: the clock read for the object
  name, whether the storage upload reports an error, the reply of the
  \<^verbatim>\<open>analyze-screenshot\<close> function (an error, no data at all, or an object whose
  \<^verbatim>\<open>placement\<close> and \<^verbatim>\<open>kills\<close> are each a number, \<^verbatim>\<open>null\<close> or missing, that is
  \<^verbatim>\<open>undefined\<close>; the reply is untyped), whether the backend refuses the insert, and
  the clock read for \<open>analyzed_at\<close>. The supabase client reports failures as
  \<^verbatim>\<open>error\<close> values; an exception thrown by a call is caught by the same inner
  \<^verbatim>\<open>catch\<close> that handles the re-thrown upload error.
\<close>

record file_env =
  now :: nat
  upload_error :: bool
  analysis_reply :: analysis_result
  db_fails :: bool
  analyzed_now :: nat

datatype toast = SelectTeamFirst | TeamFull | OnlyRemaining nat | TooManyAtOnce | OnlyImages

datatype outcome = NoFiles | Rejected toast | Processed nat nat

definition fileExt_of :: "string \<Rightarrow> string" where
  \<comment> \<open>\<^verbatim>\<open>file.name.split(".").pop()\<close>: what follows the last dot, the whole name
      when it has no dot.\<close>
  "fileExt_of n = rev (takeWhile (\<lambda>c. c \<noteq> CHR ''.'') (rev n))"

definition is_image :: "js_file \<Rightarrow> bool" where
  \<comment> \<open>\<^verbatim>\<open>file.type.startsWith("image/")\<close>\<close>
  "is_image f = (take 6 (file_type f) = ''image/'')"

definition fileName_of :: "string \<Rightarrow> nat \<Rightarrow> js_file \<times> file_env \<Rightarrow> stored_name" where
  "fileName_of userId i fe =
     \<lparr> owner = userId, stamp = now (snd fe), idx = i, ext = fileExt_of (file_name (fst fe)) \<rparr>"

definition column_of :: "js_value \<Rightarrow> int option" where
  \<comment> \<open>What a field of the insert payload leaves in its nullable column: a number, or
      NULL for \<^verbatim>\<open>null\<close> and for \<^verbatim>\<open>undefined\<close> (the JSON body drops the key and the column
      takes its default).\<close>
  "column_of v = (case v of Undefined \<Rightarrow> None | Null \<Rightarrow> None | Num n \<Rightarrow> Some n)"

definition points_of :: "js_value \<Rightarrow> js_value \<Rightarrow> int option" where
  \<comment> \<open>\<^verbatim>\<open>const points = placementPoints + kills\<close> as it reaches the \<open>points\<close> column:
      a number plus \<^verbatim>\<open>undefined\<close> is \<^verbatim>\<open>NaN\<close>, which the JSON body carries as
      \<^verbatim>\<open>null\<close>; a number plus \<^verbatim>\<open>null\<close> is the number plus 0.\<close>
  "points_of pl ki =
     (case ki of
        Undefined \<Rightarrow> None
      | Null \<Rightarrow> Some (upload_points (column_of pl) 0)
      | Num k \<Rightarrow> Some (upload_points (column_of pl) k))"

definition new_row ::
  "string \<Rightarrow> world \<Rightarrow> stored_name \<Rightarrow> js_value \<Rightarrow> js_value \<Rightarrow> nat \<Rightarrow> screenshot" where
  \<comment> \<open>The object literal handed to \<^verbatim>\<open>.insert\<close>, as the row it becomes.\<close>
  "new_row userId w publicUrl pl ki t =
     \<lparr> team_id = selectedTeamId w, player_id = userId, day = selectedDay w,
       screenshot_url = publicUrl, placement = column_of pl, kills = column_of ki,
       points = points_of pl ki, analyzed_at = t \<rparr>"

text \<open>
  One round of the loop. The guard is \<^verbatim>\<open>placement === null || kills === null\<close>: it
  stops \<^verbatim>\<open>null\<close> and lets \<^verbatim>\<open>undefined\<close> through.
\<close>

fun process_file ::
  "string \<Rightarrow> nat \<Rightarrow> js_file \<times> file_env \<Rightarrow> world \<times> nat \<times> nat \<Rightarrow> world \<times> nat \<times> nat" where
  "process_file userId i (f, env) (w, successCount, failCount) =
     (let fileName = fileName_of userId i (f, env) in
      if upload_error env then (w, successCount, failCount + 1)
      else
        (let w1 = w\<lparr>storage := storage w @ [fileName]\<rparr> in
         case analysis_reply env of
           AnalysisError \<Rightarrow> (w1, successCount, failCount + 1)
         | AnalysisNoData \<Rightarrow> (w1, successCount, failCount + 1)
         | AnalysisData pl ki \<Rightarrow>
             if pl = Null \<or> ki = Null then (w1, successCount, failCount + 1)
             else
               (case insert_screenshot (db_fails env)
                       (new_row userId w1 fileName pl ki (analyzed_now env))
                       (match_screenshots w1) of
                  Inl dbError \<Rightarrow> (w1, successCount, failCount + 1)
                | Inr rows \<Rightarrow>
                    (w1\<lparr>match_screenshots := rows\<rparr>, successCount + 1, failCount))))"

fun process_files ::
  "string \<Rightarrow> nat \<Rightarrow> (js_file \<times> file_env) list \<Rightarrow> world \<times> nat \<times> nat \<Rightarrow> world \<times> nat \<times> nat" where
  \<comment> \<open>\<^verbatim>\<open>for (let i = 0; i < files.length; i++)\<close>, from index \<open>i\<close> on.\<close>
  "process_files userId i [] acc = acc"
| "process_files userId i (fe # rest) acc =
     process_files userId (Suc i) rest (process_file userId i fe acc)"

definition handleFileUpload ::
  "string \<Rightarrow> (js_file \<times> file_env) list \<Rightarrow> world \<Rightarrow> outcome \<times> world" where
  \<comment> \<open>The refresh \<^verbatim>\<open>fetchTeams()\<close> at the end is started and not awaited; it is the
      separate step \<open>fetchTeams_player\<close>.\<close>
  "handleFileUpload userId files w =
     (if length files = 0 then (NoFiles, w)
      else if selectedTeamId w = [] then (Rejected SelectTeamFirst, w)
      else if currentUploads w \<ge> 12 then (Rejected TeamFull, w)
      else if currentUploads w + length files > 12
        then (Rejected (OnlyRemaining (12 - currentUploads w)), w)
      else if length files > 4 then (Rejected TooManyAtOnce, w)
      else if length (filter (\<lambda>fe. \<not> is_image (fst fe)) files) > 0
        then (Rejected OnlyImages, w)
      else case process_files userId 0 files (w, 0, 0) of
             (w', successCount, failCount) \<Rightarrow> (Processed successCount failCount, w'))"

definition insert_fails :: "file_env \<Rightarrow> world \<Rightarrow> bool" where
  \<comment> \<open>The insert of a row for the selected day comes back with \<^verbatim>\<open>dbError\<close>.\<close>
  "insert_fails env w = (db_fails env \<or> \<not> day_check (selectedDay w))"

definition file_fails :: "file_env \<Rightarrow> world \<Rightarrow> bool" where
  \<comment> \<open>The failures that happen after the storage upload has succeeded.\<close>
  "file_fails env w =
     (case analysis_reply env of
        AnalysisError \<Rightarrow> True
      | AnalysisNoData \<Rightarrow> True
      | AnalysisData pl ki \<Rightarrow> pl = Null \<or> ki = Null \<or> insert_fails env w)"

definition fields_present :: "file_env \<Rightarrow> bool" where
  \<comment> \<open>The reply, when there is one, has both fields (a number or \<^verbatim>\<open>null\<close> each).\<close>
  "fields_present env =
     (case analysis_reply env of
        AnalysisError \<Rightarrow> True
      | AnalysisNoData \<Rightarrow> True
      | AnalysisData pl ki \<Rightarrow> pl \<noteq> Undefined \<and> ki \<noteq> Undefined)"

definition scored_row :: "screenshot \<Rightarrow> bool" where
  \<comment> \<open>Placement and kills are present and the points are the score of the two.\<close>
  "scored_row r =
     (case placement r of
        None \<Rightarrow> False
      | Some p \<Rightarrow>
          (case kills r of
             None \<Rightarrow> False
           | Some k \<Rightarrow> points r = Some (upload_points (Some p) k)))"

section \<open>The access-code login\<close>

record session_row =
  user_id :: string
  code_used :: string
  role :: string
  session_team_id :: "string option"

record auth_world =
  current_user :: "string option"
  sessions :: "session_row list"

datatype sign_in_result = SignInError | SignInNoUser | SignInUser string

datatype code_result = CodeError | CodeNoData | CodeData string "string option"

text \<open>
  The answers of the backend during one login: the result of
  \<^verbatim>\<open>signInAnonymously\<close>, the server-side function \<^verbatim>\<open>validate_access_code\<close> (followed by
  \<^verbatim>\<open>.single()\<close>) as a function of the code it is given, and whether the insert into
  \<^verbatim>\<open>sessions\<close> reports an error.
\<close>

record login_env =
  sign_in :: sign_in_result
  validate_access_code :: "string \<Rightarrow> code_result"
  session_insert_fails :: bool

datatype login_toast =
    EnterCode | AuthFailed | InvalidCode | SessionFailed | Welcome string

definition is_space :: "char \<Rightarrow> bool" where
  \<comment> \<open>The ASCII white space that \<^verbatim>\<open>trim\<close> strips (space, tab, LF, VT, FF, CR). Strings
      are ASCII here: \<^verbatim>\<open>String.prototype.trim\<close> also strips the Unicode white space
      (U+00A0 and others), which a \<open>char\<close> does not represent.\<close>
  "is_space c = (c \<in> set [CHR 0x20, CHR 0x09, CHR 0x0A, CHR 0x0B, CHR 0x0C, CHR 0x0D])"

definition trim :: "string \<Rightarrow> string" where
  "trim s = rev (dropWhile is_space (rev (dropWhile is_space s)))"

definition toUpperCase :: "string \<Rightarrow> string" where
  \<comment> \<open>On ASCII letters; the Unicode case mappings of \<^verbatim>\<open>toUpperCase\<close> are outside the
      ASCII strings modelled here.\<close>
  "toUpperCase s =
     map (\<lambda>c. let n = (of_char c :: nat) in
               if 97 \<le> n \<and> n \<le> 122 then char_of (n - 32) else c) s"

definition signOut :: "auth_world \<Rightarrow> auth_world" where
  "signOut a = a\<lparr>current_user := None\<rparr>"

definition handleAccessCode :: "login_env \<Rightarrow> string \<Rightarrow> auth_world \<Rightarrow> login_toast \<times> auth_world" where
  "handleAccessCode env accessCode a =
     (if trim accessCode = [] then (EnterCode, a)
      else case sign_in env of
             SignInError \<Rightarrow> (AuthFailed, a)
           | SignInNoUser \<Rightarrow> (AuthFailed, a)
           | SignInUser uid \<Rightarrow>
               (let a1 = a\<lparr>current_user := Some uid\<rparr>;
                    input_code = toUpperCase (trim accessCode)
                in case validate_access_code env input_code of
                     CodeError \<Rightarrow> (InvalidCode, signOut a1)
                   | CodeNoData \<Rightarrow> (InvalidCode, signOut a1)
                   | CodeData r t \<Rightarrow>
                       if session_insert_fails env then (SessionFailed, signOut a1)
                       else (Welcome r,
                             a1\<lparr>sessions := sessions a1 @
                                  [\<lparr> user_id = uid, code_used = input_code, role = r,
                                     session_team_id = t \<rparr>]\<rparr>)))"

section \<open>Example data\<close>

definition demo_name :: stored_name where
  "demo_name = \<lparr> owner = ''u1'', stamp = 1000, idx = 0, ext = ''png'' \<rparr>"

definition demo_row :: "string \<Rightarrow> int option \<Rightarrow> int option \<Rightarrow> int option \<Rightarrow> screenshot" where
  "demo_row t p k pts =
     \<lparr> team_id = t, player_id = ''u0'', day = 1, screenshot_url = demo_name,
       placement = p, kills = k, points = pts, analyzed_at = 0 \<rparr>"


definition demo_teams :: "team list" where
  "demo_teams =
     [\<lparr> team_ident = ''A'', team_name = ''Alpha'' \<rparr>,
      \<lparr> team_ident = ''B'', team_name = ''Bravo'' \<rparr>]"

definition demo_world :: "(string \<rightharpoonup> nat) \<Rightarrow> screenshot list \<Rightarrow> world" where
  "demo_world counts rows =
     \<lparr> selectedTournamentId = ''T'', selectedTeamId = ''A'', selectedDay = 2,
       teamUploadCounts = counts, teams = [], storage = [], match_screenshots = rows \<rparr>"

definition demo_file :: "analysis_result \<Rightarrow> bool \<Rightarrow> js_file \<times> file_env" where
  "demo_file a dbf =
     (\<lparr> file_name = ''shot.png'', file_type = ''image/png'' \<rparr>,
      \<lparr> now = 1000, upload_error = False, analysis_reply = a, db_fails = dbf,
        analyzed_now = 1001 \<rparr>)"

definition demo_login :: "code_result \<Rightarrow> bool \<Rightarrow> login_env" where
  "demo_login c f =
     \<lparr> sign_in = SignInUser ''anon1'',
       validate_access_code = (\<lambda>code. if code = ''ADMIN1'' then c else CodeNoData),
       session_insert_fails = f \<rparr>"

definition demo_auth :: auth_world where
  "demo_auth = \<lparr> current_user = None, sessions = [] \<rparr>"

declare process_file.simps [simp del]

section \<open>Facts about the table\<close>

lemma PLACEMENT_POINTS_cases:
  "PLACEMENT_POINTS p =
     (if p = 1 then Some 10 else if p = 2 then Some 6 else if p = 3 then Some 5
      else if p = 4 then Some 4 else if p = 5 then Some 3 else if p = 6 then Some 2
      else if p = 7 then Some 1 else if p = 8 then Some 1
      else if 9 \<le> p \<and> p \<le> 32 then Some 0 else None)"
proof -
  have "p < 1 \<or> 32 < p \<or> p \<in> {1..32}" by auto
  moreover have "{1..32::int} = set [1..32]" by simp
  ultimately consider "p < 1" | "32 < p" | "p \<in> set [1..32]" by blast
  then show ?thesis
  proof cases
    case 1 then show ?thesis by (simp add: PLACEMENT_POINTS_def)
  next
    case 2 then show ?thesis by (simp add: PLACEMENT_POINTS_def)
  next
    case 3
    have "[1..32::int] = [1,2,3,4,5,6,7,8,9,10,11,12,13,14,15,16,17,18,19,20,21,22,23,24,
                          25,26,27,28,29,30,31,32]"
      by (simp add: upto.simps)
    with 3 have "p \<in> set [1,2,3,4,5,6,7,8,9,10,11,12,13,14,15,16,17,18,19,20,21,22,23,24,
                          25,26,27,28,29,30,31,32]" by simp
    then show ?thesis unfolding PLACEMENT_POINTS_def by (elim set_ConsD [elim_format]) auto
  qed
qed

lemma or_zero_table_at:
  "or_zero (table_at (Some p)) = placementTable p"
  by (simp add: or_zero_def table_at_def placementTable_def PLACEMENT_POINTS_cases)

lemma or_zero_table_at_null: "or_zero (table_at None) = 0"
  by (simp add: or_zero_def table_at_def)

lemma row_placement_points_Some:
  "row_placement_points (Some p) = placementTable p"
  by (simp add: row_placement_points_def or_zero_def placementTable_def PLACEMENT_POINTS_cases)

lemma row_placement_points_null: "row_placement_points None = 0"
  by (simp add: row_placement_points_def or_zero_def PLACEMENT_POINTS_cases)

lemma placementTable_nonneg: "0 \<le> placementTable p"
  by (simp add: placementTable_def)

lemma placementTable_high: "9 \<le> p \<Longrightarrow> placementTable p = 0"
  by (simp add: placementTable_def)

lemma bit_length_le: "m < 2 ^ k \<Longrightarrow> bit_length m \<le> k"
proof (induction k arbitrary: m)
  case 0
  then show ?case by (simp add: bit_length.simps)
next
  case (Suc k)
  then have "m div 2 < 2 ^ k" by simp
  from Suc.IH [OF this] show ?case by (subst bit_length.simps) simp
qed

lemma ulp_pos: "0 < ulp n"
  by (simp add: ulp_def)

lemma ulp_small: "\<bar>n\<bar> < 2 ^ 53 \<Longrightarrow> ulp n = 1"
proof -
  assume "\<bar>n\<bar> < 2 ^ 53"
  from bit_length_le [OF this] show ?thesis by (simp add: ulp_def)
qed

lemma to_double_small: "\<bar>n\<bar> < 2 ^ 53 \<Longrightarrow> to_double n = n"
  by (simp add: to_double_def ulp_small)

lemma to_double_edge:
  "to_double 9007199254740992 = 9007199254740992"
  "to_double (- 9007199254740992) = - 9007199254740992"
  by (simp_all add: to_double_def ulp_def bit_length.simps)

lemma two_53: "(2::int) ^ 53 = 9007199254740992"
  by simp

lemma to_double_exact: "\<bar>n\<bar> \<le> 2 ^ 53 \<Longrightarrow> to_double n = n"
proof -
  assume "\<bar>n\<bar> \<le> 2 ^ 53"
  then have "\<bar>n\<bar> \<le> 9007199254740992" by (simp only: two_53)
  then have "\<bar>n\<bar> < 9007199254740992 \<or> n = 9007199254740992 \<or> n = - 9007199254740992"
    by linarith
  then consider "\<bar>n\<bar> < 2 ^ 53" | "n = 9007199254740992" | "n = - 9007199254740992"
    unfolding two_53 by blast
  then show ?thesis
  proof cases
    case 1
    then show ?thesis by (rule to_double_small)
  next
    case 2
    then show ?thesis by (simp only: to_double_edge)
  next
    case 3
    then show ?thesis by (simp only: to_double_edge)
  qed
qed

lemma to_double_nonneg: "0 \<le> n \<Longrightarrow> 0 \<le> to_double n"
proof -
  assume n: "0 \<le> n"
  have u: "0 < ulp n" by (rule ulp_pos)
  with n have q: "0 \<le> n div ulp n" by (simp add: pos_imp_zdiv_nonneg_iff)
  with u show ?thesis by (simp add: to_double_def Let_def)
qed

lemma upload_points_Some: "upload_points (Some p) k = js_add (placementTable p) k"
  by (simp add: upload_points_def or_zero_table_at)

lemma upload_points_None: "upload_points None k = js_add 0 k"
  by (simp add: upload_points_def or_zero_table_at_null)

lemma calculatePoints_placementTable: "calculatePoints p k = js_add (placementTable p) k"
  by (simp add: calculatePoints_def placementTable_def)

lemma upload_points_exact:
  assumes "0 \<le> k" and "placementTable p + k \<le> 2 ^ 53"
  shows "upload_points (Some p) k = placementTable p + k"
proof -
  from assms placementTable_nonneg [of p] have "\<bar>placementTable p + k\<bar> \<le> 2 ^ 53" by simp
  from to_double_exact [OF this] show ?thesis by (simp add: upload_points_Some js_add_def)
qed

lemma upload_points_examples:
  "upload_points (Some 1) 5 = 15" "upload_points (Some 9) 3 = 3" "upload_points None 0 = 0"
  "upload_points (Some 2) 0 = 6" "upload_points (Some 40) 2 = 2"
  by (simp_all add: upload_points_Some upload_points_None js_add_def placementTable_def
      to_double_small)

section \<open>Claims about the scoring computation\<close>

text \<open>
  C1, as amended. For every placement \<open>p\<close> with \<open>1 \<le> p \<le> 8\<close> and every kill count
  \<open>k \<ge> 0\<close> for which the table value of \<open>p\<close> plus \<open>k\<close> is at most \<open>2 ^ 53\<close> (where the
  addition of JavaScript numbers is exact), the scoring computation returns the table
  value plus \<open>k\<close>, the table being
  1 \<open>\<mapsto>\<close> 10, 2 \<open>\<mapsto>\<close> 6, 3 \<open>\<mapsto>\<close> 5, 4 \<open>\<mapsto>\<close> 4, 5 \<open>\<mapsto>\<close> 3, 6 \<open>\<mapsto>\<close> 2, 7 \<open>\<mapsto>\<close> 1, 8 \<open>\<mapsto>\<close> 1.
  For every placement \<open>p \<ge> 9\<close> and for a null placement the placement contribution is 0
  (in the upload-time expression and in the per-row lookup of the standings), so the
  result equals \<open>k\<close> for every kill count that is a number (a double, as every integer up
  to \<open>2 ^ 53\<close> is). In particular (1, 5) gives 15, (9, 3) gives 3 and (null, 0) gives 0.
\<close>

theorem C1_scoring_table:
  "(1 \<le> p \<and> p \<le> 8 \<and> 0 \<le> k \<and> placementTable p + k \<le> 2 ^ 53 \<longrightarrow>
      upload_points (Some p) k = placementTable p + k
      \<and> placementTable p = [10, 6, 5, 4, 3, 2, 1, 1] ! nat (p - 1)
      \<and> row_placement_points (Some p) = placementTable p)
   \<and> (9 \<le> p \<longrightarrow>
      or_zero (table_at (Some p)) = 0 \<and> row_placement_points (Some p) = 0)
   \<and> (9 \<le> p \<and> to_double k = k \<longrightarrow> upload_points (Some p) k = k)
   \<and> or_zero (table_at None) = 0 \<and> row_placement_points None = 0
   \<and> (to_double k = k \<longrightarrow> upload_points None k = k)
   \<and> (\<bar>k\<bar> \<le> 2 ^ 53 \<longrightarrow> to_double k = k)
   \<and> upload_points (Some 1) 5 = 15
   \<and> upload_points (Some 9) 3 = 3
   \<and> upload_points None 0 = 0"
proof -
  have low: "placementTable p = [10, 6, 5, 4, 3, 2, 1, 1] ! nat (p - 1)"
    if "1 \<le> p" "p \<le> 8"
  proof -
    from that have "p = 1 \<or> p = 2 \<or> p = 3 \<or> p = 4 \<or> p = 5 \<or> p = 6 \<or> p = 7 \<or> p = 8"
      by arith
    then show ?thesis by (auto simp: placementTable_def)
  qed
  have high: "upload_points (Some p) k = k" if "9 \<le> p" "to_double k = k"
    using that by (simp add: upload_points_Some js_add_def placementTable_high)
  have null: "upload_points None k = k" if "to_double k = k"
    using that by (simp add: upload_points_None js_add_def)
  show ?thesis
    apply (intro conjI impI)
    subgoal by (rule upload_points_exact) simp_all
    subgoal by (rule low) simp_all
    subgoal by (rule row_placement_points_Some)
    subgoal by (simp add: or_zero_table_at placementTable_high)
    subgoal by (simp add: row_placement_points_Some placementTable_high)
    subgoal by (rule high) simp_all
    subgoal by (rule or_zero_table_at_null)
    subgoal by (rule row_placement_points_null)
    subgoal by (rule null)
    subgoal by (rule to_double_exact)
    subgoal by (rule upload_points_examples)
    subgoal by (rule upload_points_examples)
    subgoal by (rule upload_points_examples)
    done
qed

theorem C1_scoring_table_witness:
  "(1::int) \<le> 3 \<and> (3::int) \<le> 8 \<and> (0::int) \<le> 4 \<and> placementTable 3 + 4 \<le> 2 ^ 53
   \<and> upload_points (Some 3) 4 = 9
   \<and> (9::int) \<le> 20 \<and> \<bar>4::int\<bar> \<le> 2 ^ 53 \<and> to_double 4 = 4
   \<and> upload_points (Some 20) 4 = 4 \<and> row_placement_points (Some 20) = 0
   \<and> upload_points None 4 = 4"
proof -
  have t: "placementTable 3 = 5" by (simp add: placementTable_def)
  have h: "(1::int) \<le> 3 \<and> (3::int) \<le> 8 \<and> (0::int) \<le> 4 \<and> placementTable 3 + 4 \<le> 2 ^ 53"
    by (simp add: t)
  have s: "\<bar>4::int\<bar> \<le> 2 ^ 53" by simp
  note c = C1_scoring_table [of 20 4, THEN conjunct2]
  have d: "to_double 4 = 4"
    using c [THEN conjunct2, THEN conjunct2, THEN conjunct2, THEN conjunct2, THEN conjunct2,
        THEN conjunct1, THEN mp, OF s] .
  have g: "(9::int) \<le> 20 \<and> to_double 4 = 4" by (simp add: d)
  have a: "upload_points (Some 3) 4 = 9"
    using C1_scoring_table [of 3 4, THEN conjunct1, THEN mp, OF h] by (simp add: t)
  have b: "row_placement_points (Some 20) = 0"
    using c [THEN conjunct1] by simp
  have e: "upload_points (Some 20) 4 = 4"
    using c [THEN conjunct2, THEN conjunct1, THEN mp, OF g] .
  have n: "upload_points None 4 = 4"
    using c [THEN conjunct2, THEN conjunct2, THEN conjunct2, THEN conjunct2, THEN conjunct1,
        THEN mp, OF d] .
  from h a g s e b n show ?thesis by simp
qed

text \<open>
  C1 as the specification words it, for every kill count \<open>k \<ge> 0\<close>, fails at placement
  1 with \<open>2 ^ 53 - 1\<close> kills: the kill count is a JavaScript number, the table gives 10,
  and the sum \<open>2 ^ 53 + 9\<close> is no double; the expression yields \<open>2 ^ 53 + 8\<close>.
\<close>

theorem C1_scoring_table_counterexample:
  "(1::int) \<le> 1 \<and> (1::int) \<le> 8 \<and> (0::int) \<le> 9007199254740991
   \<and> to_double 9007199254740991 = 9007199254740991
   \<and> upload_points (Some 1) 9007199254740991 = 9007199254741000
   \<and> upload_points (Some 1) 9007199254740991 \<noteq> placementTable 1 + 9007199254740991"
proof -
  have d: "to_double 9007199254740991 = 9007199254740991"
    by (simp add: to_double_def ulp_def bit_length.simps)
  have t: "placementTable 1 = 10" by (simp add: placementTable_def)
  have r: "to_double 9007199254741001 = 9007199254741000"
    by (simp add: to_double_def ulp_def bit_length.simps)
  have u: "upload_points (Some 1) 9007199254740991 = 9007199254741000"
    by (simp add: upload_points_Some js_add_def t r)
  from d t u show ?thesis by simp
qed

text \<open>
  C3. The scoring function is the same at every call site: for every placement
  \<open>p \<ge> 1\<close> and kill count \<open>k \<ge> 0\<close> the upload-time inline computation, the
  manual-correction function \<open>calculatePoints\<close> and the placement-points table of the
  standings aggregation (with the kills added) give the same value.
\<close>

theorem C3_call_sites_agree:
  assumes "1 \<le> p" and "0 \<le> k"
  shows "upload_points (Some p) k = calculatePoints p k
       \<and> js_add (row_placement_points (Some p)) k = calculatePoints p k
       \<and> row_placement_points (Some p) = or_zero (table_at (Some p))"
  by (simp add: upload_points_Some or_zero_table_at row_placement_points_Some
      calculatePoints_placementTable)

theorem C3_call_sites_agree_witness:
  "(1::int) \<le> 2 \<and> (0::int) \<le> 7 \<and> upload_points (Some 2) 7 = 13 \<and> calculatePoints 2 7 = 13
   \<and> js_add (row_placement_points (Some 2)) 7 = 13"
proof -
  have h1: "(1::int) \<le> 2" and h2: "(0::int) \<le> 7" by simp_all
  have c: "calculatePoints 2 7 = 13"
    by (simp add: calculatePoints_def js_add_def to_double_small)
  note a = C3_call_sites_agree [OF h1 h2]
  from a [THEN conjunct1] a [THEN conjunct2, THEN conjunct1] c show ?thesis by simp
qed

text \<open>
  C6. For every integer placement rank \<open>p \<ge> 1\<close> and every integer kill count \<open>k \<ge> 0\<close>
  the scoring calculator returns a non-negative integer.
\<close>

theorem C6_points_nonneg:
  assumes "1 \<le> p" and "0 \<le> k"
  shows "0 \<le> upload_points (Some p) k"
proof -
  from placementTable_nonneg [of p] assms(2) have "0 \<le> placementTable p + k" by simp
  from to_double_nonneg [OF this] show ?thesis by (simp add: upload_points_Some js_add_def)
qed

theorem C6_points_nonneg_witness:
  "(1::int) \<le> 40 \<and> (0::int) \<le> 0 \<and> 0 \<le> upload_points (Some 40) 0"
proof -
  have h1: "(1::int) \<le> 40" and h2: "(0::int) \<le> 0" by simp_all
  show ?thesis using C6_points_nonneg [OF h1 h2] by simp
qed

section \<open>Standings\<close>









section \<open>The upload handler\<close>

lemma upload_counts_snoc:
  "upload_counts am (ts @ [t]) =
     (upload_counts am ts)(team_ident t \<mapsto> length (teamMatches_of am (team_ident t)))"
  by (simp add: upload_counts_def)

lemma upload_counts_lookup:
  "upload_counts am ts tid =
     (if tid \<in> team_ident ` set ts then Some (length (teamMatches_of am tid)) else None)"
proof (induction ts rule: rev_induct)
  case Nil
  show ?case by (simp add: upload_counts_def)
next
  case (snoc t ts)
  then show ?case by (auto simp: upload_counts_snoc)
qed

lemma currentUploads_after_fetch:
  assumes "selectedTournamentId w0 \<noteq> []" and "selectedTeamId w0 \<in> team_ident ` set ts"
  shows "currentUploads (fetchTeams_player (Some ts) (Some (match_screenshots w0)) w0) =
           length (filter (\<lambda>r. team_id r = selectedTeamId w0) (match_screenshots w0))"
  using assms
  by (simp add: fetchTeams_player_def currentUploads_def upload_counts_lookup teamMatches_of_def)

lemma handleFileUpload_cap:
  assumes "12 \<le> currentUploads w \<or> 12 < currentUploads w + length files"
  shows "snd (handleFileUpload userId files w) = w"
    and "fst (handleFileUpload userId files w) \<noteq> Processed s f"
    and "files \<noteq> [] \<Longrightarrow> selectedTeamId w \<noteq> [] \<Longrightarrow>
         fst (handleFileUpload userId files w) =
           Rejected (if 12 \<le> currentUploads w then TeamFull
                     else OnlyRemaining (12 - currentUploads w))"
  using assms by (auto simp: handleFileUpload_def)

text \<open>
  C4. An upload attempt for which the count of the selected team is already 12 or more,
  or for which that count plus the number of selected files exceeds 12, is rejected
  before any file is stored or any row inserted: the handler returns the world it was
  given, so the bucket and \<^verbatim>\<open>match_screenshots\<close> are unchanged. The count is the one the
  handler reads, \<^verbatim>\<open>teamUploadCounts[selectedTeamId] || 0\<close>; right after a refresh whose two
  queries succeeded it is the number of rows the team has in \<^verbatim>\<open>match_screenshots\<close>.
\<close>

theorem C4_cap_rejects:
  "(12 \<le> currentUploads w \<or> 12 < currentUploads w + length files \<longrightarrow>
      snd (handleFileUpload userId files w) = w
      \<and> storage (snd (handleFileUpload userId files w)) = storage w
      \<and> match_screenshots (snd (handleFileUpload userId files w)) = match_screenshots w
      \<and> fst (handleFileUpload userId files w) \<noteq> Processed s f
      \<and> (files \<noteq> [] \<and> selectedTeamId w \<noteq> [] \<longrightarrow>
           fst (handleFileUpload userId files w) =
             Rejected (if 12 \<le> currentUploads w then TeamFull
                       else OnlyRemaining (12 - currentUploads w))))
   \<and> (selectedTournamentId w0 \<noteq> [] \<and> selectedTeamId w0 \<in> team_ident ` set ts \<longrightarrow>
      currentUploads (fetchTeams_player (Some ts) (Some (match_screenshots w0)) w0) =
        length (filter (\<lambda>r. team_id r = selectedTeamId w0) (match_screenshots w0)))"
proof -
  have A: "snd (handleFileUpload userId files w) = w
      \<and> storage (snd (handleFileUpload userId files w)) = storage w
      \<and> match_screenshots (snd (handleFileUpload userId files w)) = match_screenshots w
      \<and> fst (handleFileUpload userId files w) \<noteq> Processed s f
      \<and> (files \<noteq> [] \<and> selectedTeamId w \<noteq> [] \<longrightarrow>
           fst (handleFileUpload userId files w) =
             Rejected (if 12 \<le> currentUploads w then TeamFull
                       else OnlyRemaining (12 - currentUploads w)))"
    if "12 \<le> currentUploads w \<or> 12 < currentUploads w + length files"
    using handleFileUpload_cap [OF that] by simp
  from A currentUploads_after_fetch [of w0 ts] show ?thesis by blast
qed

theorem C4_cap_rejects_witness:
  "12 \<le> currentUploads (demo_world [''A'' \<mapsto> 12] [])
   \<and> handleFileUpload ''u1'' [demo_file (AnalysisData (Num 1) (Num 5)) False]
        (demo_world [''A'' \<mapsto> 12] [])
       = (Rejected TeamFull, demo_world [''A'' \<mapsto> 12] [])
   \<and> selectedTournamentId (demo_world Map.empty (replicate 12 (demo_row ''A'' None None None))) \<noteq> []
   \<and> selectedTeamId (demo_world Map.empty (replicate 12 (demo_row ''A'' None None None)))
        \<in> team_ident ` set demo_teams
   \<and> currentUploads (fetchTeams_player (Some demo_teams)
             (Some (replicate 12 (demo_row ''A'' None None None)))
             (demo_world Map.empty (replicate 12 (demo_row ''A'' None None None)))) = 12"
proof -
  let ?F = "[demo_file (AnalysisData (Num 1) (Num 5)) False]"
  let ?W = "demo_world [''A'' \<mapsto> 12] []"
  let ?R = "replicate 12 (demo_row ''A'' None None None)"
  let ?V = "demo_world Map.empty ?R"
  have h1: "12 \<le> currentUploads ?W \<or> 12 < currentUploads ?W + length ?F"
    by (simp add: currentUploads_def demo_world_def)
  have s: "?F \<noteq> [] \<and> selectedTeamId ?W \<noteq> []" by (simp add: demo_world_def)
  have a: "selectedTournamentId ?V \<noteq> [] \<and> selectedTeamId ?V \<in> team_ident ` set demo_teams"
    by (simp add: demo_world_def demo_teams_def)
  have v: "match_screenshots ?V = ?R" "selectedTeamId ?V = ''A''"
    by (simp_all add: demo_world_def)
  have n: "length (filter (\<lambda>r. team_id r = ''A'') ?R) = 12"
    by (simp add: demo_row_def)
  note c = C4_cap_rejects [where w = ?W and files = ?F and userId = "''u1''" and ?w0.0 = ?V
      and ts = demo_teams and s = 0 and f = 0]
  note c1 = c [THEN conjunct1, rule_format, OF h1]
  have p1: "handleFileUpload ''u1'' ?F ?W = (Rejected TeamFull, ?W)"
    using c1 [THEN conjunct1]
      c1 [THEN conjunct2, THEN conjunct2, THEN conjunct2, THEN conjunct2, rule_format, OF s] h1
    by (simp add: prod_eq_iff currentUploads_def demo_world_def)
  have p2: "currentUploads (fetchTeams_player (Some demo_teams) (Some ?R) ?V) = 12"
    using c [THEN conjunct2, rule_format, OF a] unfolding v n .
  from h1 p1 a p2 show ?thesis by (simp add: currentUploads_def demo_world_def)
qed

text \<open>
  C9. An upload attempt with more than 4 selected files is rejected as a whole before any
  storage upload or insert; when it passes the checks evaluated before (a team is
  selected, the two checks of the 12-screenshot cap) the rejection is the one of the batch
  limit. No batch of more than 4 files is ever processed.
\<close>

theorem C9_batch_limit:
  "(4 < length files \<longrightarrow>
      snd (handleFileUpload userId files w) = w
      \<and> fst (handleFileUpload userId files w) \<in>
          {Rejected SelectTeamFirst, Rejected TeamFull,
           Rejected (OnlyRemaining (12 - currentUploads w)), Rejected TooManyAtOnce})
   \<and> (4 < length files \<and> selectedTeamId w \<noteq> [] \<and> currentUploads w < 12
        \<and> currentUploads w + length files \<le> 12 \<longrightarrow>
      handleFileUpload userId files w = (Rejected TooManyAtOnce, w))
   \<and> (fst (handleFileUpload userId files w) = Processed s f \<longrightarrow> length files \<le> 4)"
  by (auto simp: handleFileUpload_def split: prod.splits)

theorem C9_batch_limit_witness:
  "4 < length (replicate 5 (demo_file AnalysisError False))
   \<and> selectedTeamId (demo_world [''A'' \<mapsto> 2] []) \<noteq> []
   \<and> currentUploads (demo_world [''A'' \<mapsto> 2] []) < 12
   \<and> currentUploads (demo_world [''A'' \<mapsto> 2] [])
        + length (replicate 5 (demo_file AnalysisError False)) \<le> 12
   \<and> handleFileUpload ''u1'' (replicate 5 (demo_file AnalysisError False))
        (demo_world [''A'' \<mapsto> 2] [])
       = (Rejected TooManyAtOnce, demo_world [''A'' \<mapsto> 2] [])
   \<and> fst (handleFileUpload ''u1'' [demo_file AnalysisError False] (demo_world [''A'' \<mapsto> 2] []))
       = Processed 0 1
   \<and> length [demo_file AnalysisError False] \<le> 4"
proof -
  let ?W = "demo_world [''A'' \<mapsto> 2] []"
  let ?F = "replicate 5 (demo_file AnalysisError False)"
  have h: "4 < length ?F" "selectedTeamId ?W \<noteq> []" "currentUploads ?W < 12"
    "currentUploads ?W + length ?F \<le> 12"
    by (simp_all add: currentUploads_def demo_world_def)
  have p: "fst (handleFileUpload ''u1'' [demo_file AnalysisError False] ?W) = Processed 0 1"
    by (simp add: handleFileUpload_def currentUploads_def demo_world_def demo_file_def
        is_image_def process_file.simps)
  from C9_batch_limit [of ?F "''u1''" ?W 0 1] h
  have "handleFileUpload ''u1'' ?F ?W = (Rejected TooManyAtOnce, ?W)" by blast
  moreover from C9_batch_limit [of "[demo_file AnalysisError False]" "''u1''" ?W 0 1] p
  have "length [demo_file AnalysisError False] \<le> 4" by blast
  ultimately show ?thesis using h p by simp
qed

lemma process_files_append:
  "process_files userId i (pre @ post) acc =
     process_files userId (i + length pre) post (process_files userId i pre acc)"
  by (induction pre arbitrary: i acc) simp_all

lemma process_file_failed:
  assumes "\<not> upload_error env" and "file_fails env w"
  shows "process_file userId i (f, env) (w, s, fl) =
           (w\<lparr>storage := storage w @ [fileName_of userId i (f, env)]\<rparr>, s, Suc fl)"
  using assms
  by (auto simp: process_file.simps file_fails_def insert_fails_def insert_screenshot_def
      new_row_def Let_def
      split: analysis_result.splits option.splits)

lemma process_file_storage:
  "\<exists>more. storage (fst (process_file userId i fe acc)) = storage (fst acc) @ more"
proof -
  obtain f env where fe: "fe = (f, env)" by (cases fe)
  obtain w s fl where acc: "acc = (w, s, fl)" by (cases acc)
  show ?thesis unfolding fe acc
    by (auto simp: process_file.simps Let_def insert_screenshot_def
        split: analysis_result.splits option.splits sum.splits)
qed

lemma process_files_storage:
  "\<exists>more. storage (fst (process_files userId i fs acc)) = storage (fst acc) @ more"
proof (induction fs arbitrary: i acc)
  case Nil
  show ?case by simp
next
  case (Cons fe fs)
  from Cons [of "Suc i" "process_file userId i fe acc"] obtain m1 where
    m1: "storage (fst (process_files userId (Suc i) fs (process_file userId i fe acc))) =
         storage (fst (process_file userId i fe acc)) @ m1" by blast
  from process_file_storage [of userId i fe acc] obtain m2 where
    m2: "storage (fst (process_file userId i fe acc)) = storage (fst acc) @ m2" by blast
  show ?case using m1 m2 by simp
qed

text \<open>
  C7. In the per-file loop, when the image of a file has been stored and then the
  analysis call errors, or the analysis gives a null placement or null kills, or the
  insert fails, no row is inserted for that file, the stored image stays in the bucket
  (also after the rest of the batch), the failure is counted, and the loop goes on with
  the remaining files from the next index: no retry, no abort.
\<close>

theorem C7_failed_file_is_skipped:
  assumes reached: "process_files userId 0 pre acc = (w, s, fl)"
    and stored: "\<not> upload_error env"
    and failed: "file_fails env w"
    and name: "fileName = fileName_of userId (length pre) (f, env)"
    and after: "w' = w\<lparr>storage := storage w @ [fileName]\<rparr>"
  shows "process_files userId 0 (pre @ [(f, env)]) acc = (w', s, Suc fl)
       \<and> match_screenshots w' = match_screenshots w
       \<and> process_files userId 0 (pre @ (f, env) # post) acc =
           process_files userId (Suc (length pre)) post (w', s, Suc fl)
       \<and> fileName \<in> set (storage (fst (process_files userId 0 (pre @ (f, env) # post) acc)))"
proof -
  have step: "process_file userId (length pre) (f, env) (w, s, fl) = (w', s, Suc fl)"
    unfolding after name by (rule process_file_failed [OF stored failed])
  have one: "process_files userId 0 (pre @ [(f, env)]) acc = (w', s, Suc fl)"
    by (simp add: process_files_append reached step)
  have all: "process_files userId 0 (pre @ (f, env) # post) acc =
           process_files userId (Suc (length pre)) post (w', s, Suc fl)"
    by (simp add: process_files_append reached step)
  from process_files_storage [of userId "Suc (length pre)" post "(w', s, Suc fl)"]
  obtain more where "storage (fst (process_files userId (Suc (length pre)) post (w', s, Suc fl)))
      = storage w' @ more" by auto
  then have "fileName \<in> set (storage (fst (process_files userId (Suc (length pre)) post
      (w', s, Suc fl))))" using after by simp
  with one all after show ?thesis by simp
qed

theorem C7_failed_file_is_skipped_witness:
  "process_files ''u1'' 0 [demo_file (AnalysisData (Num 1) (Num 5)) False]
       (demo_world Map.empty [], 0, 0)
     = (demo_world Map.empty []
          \<lparr> storage := [demo_name],
            match_screenshots :=
              [\<lparr> team_id = ''A'', player_id = ''u1'', day = 2, screenshot_url = demo_name,
                 placement = Some 1, kills = Some 5, points = Some 15, analyzed_at = 1001 \<rparr>] \<rparr>,
        1, 0)
   \<and> \<not> upload_error (snd (demo_file (AnalysisData Null (Num 5)) False))
   \<and> process_files ''u1'' 0
        [demo_file (AnalysisData (Num 1) (Num 5)) False,
         demo_file (AnalysisData Null (Num 5)) False,
         demo_file (AnalysisData (Num 2) (Num 0)) False]
        (demo_world Map.empty [], 0, 0)
     = process_files ''u1'' 2 [demo_file (AnalysisData (Num 2) (Num 0)) False]
        (demo_world Map.empty []
          \<lparr> storage := [demo_name, demo_name\<lparr>idx := 1\<rparr>],
            match_screenshots :=
              [\<lparr> team_id = ''A'', player_id = ''u1'', day = 2, screenshot_url = demo_name,
                 placement = Some 1, kills = Some 5, points = Some 15, analyzed_at = 1001 \<rparr>] \<rparr>,
         1, 1)
   \<and> demo_name\<lparr>idx := 1\<rparr> \<in> set (storage (fst (process_files ''u1'' 0
        [demo_file (AnalysisData (Num 1) (Num 5)) False,
         demo_file (AnalysisData Null (Num 5)) False,
         demo_file (AnalysisData (Num 2) (Num 0)) False]
        (demo_world Map.empty [], 0, 0))))"
proof -
  let ?ok = "demo_file (AnalysisData (Num 1) (Num 5)) False"
  let ?bad = "demo_file (AnalysisData Null (Num 5)) False"
  let ?post = "[demo_file (AnalysisData (Num 2) (Num 0)) False]"
  let ?row = "\<lparr> team_id = ''A'', player_id = ''u1'', day = 2, screenshot_url = demo_name,
                 placement = Some 1, kills = Some 5, points = Some (15::int), analyzed_at = 1001 \<rparr>"
  let ?w = "demo_world Map.empty [] \<lparr> storage := [demo_name], match_screenshots := [?row] \<rparr>"
  have ext: "fileExt_of ''shot.png'' = ''png''" by (simp add: fileExt_of_def)
  have pts: "upload_points (Some 1) 5 = 15" by (rule upload_points_examples)
  have reached: "process_files ''u1'' 0 [?ok] (demo_world Map.empty [], 0, 0) = (?w, 1, 0)"
    by (simp add: process_file.simps demo_file_def demo_world_def fileName_of_def ext
        demo_name_def Let_def insert_screenshot_def new_row_def column_of_def points_of_def
        day_check_def pts)
  have stored: "\<not> upload_error (snd ?bad)" by (simp add: demo_file_def)
  have failed: "file_fails (snd ?bad) ?w" by (simp add: file_fails_def demo_file_def)
  have name: "demo_name\<lparr>idx := 1\<rparr> = fileName_of ''u1'' (length [?ok]) (fst ?bad, snd ?bad)"
    by (simp add: fileName_of_def demo_file_def demo_name_def ext)
  have after: "demo_world Map.empty []
          \<lparr> storage := [demo_name, demo_name\<lparr>idx := 1\<rparr>], match_screenshots := [?row] \<rparr>
      = ?w\<lparr>storage := storage ?w @ [demo_name\<lparr>idx := 1\<rparr>]\<rparr>"
    by (simp add: demo_world_def)
  note c = C7_failed_file_is_skipped [OF reached stored failed name after, of ?post]
  have c1: "process_files ''u1'' 0 [?ok, ?bad, demo_file (AnalysisData (Num 2) (Num 0)) False]
        (demo_world Map.empty [], 0, 0)
     = process_files ''u1'' 2 ?post
        (demo_world Map.empty []
          \<lparr> storage := [demo_name, demo_name\<lparr>idx := 1\<rparr>], match_screenshots := [?row] \<rparr>, 1, 1)"
    using c [THEN conjunct2, THEN conjunct2, THEN conjunct1]
    by (simp del: process_files.simps add: numeral_2_eq_2)
  have c2: "demo_name\<lparr>idx := 1\<rparr> \<in> set (storage (fst (process_files ''u1'' 0
        [?ok, ?bad, demo_file (AnalysisData (Num 2) (Num 0)) False]
        (demo_world Map.empty [], 0, 0))))"
    using c [THEN conjunct2, THEN conjunct2, THEN conjunct2]
    by (simp del: process_files.simps)
  from reached stored c1 c2 show ?thesis by blast
qed

lemma scored_new_row:
  assumes "pl \<noteq> Undefined" "pl \<noteq> Null" "ki \<noteq> Undefined" "ki \<noteq> Null"
  shows "scored_row (new_row userId w n pl ki t)"
  using assms
  by (cases pl; cases ki) (simp_all add: scored_row_def new_row_def column_of_def points_of_def)

lemma process_file_rows:
  assumes "fields_present (snd fe)"
  shows "\<exists>new. match_screenshots (fst (process_file userId i fe acc)) =
            match_screenshots (fst acc) @ new \<and> (\<forall>r \<in> set new. scored_row r)"
proof -
  obtain f env where fe: "fe = (f, env)" by (cases fe)
  obtain w s fl where acc: "acc = (w, s, fl)" by (cases acc)
  show ?thesis using assms unfolding fe acc
    by (auto simp: process_file.simps Let_def insert_screenshot_def scored_new_row
        fields_present_def split: analysis_result.splits sum.splits)
qed

lemma process_files_rows:
  assumes "\<forall>fe \<in> set fs. fields_present (snd fe)"
  shows "\<exists>new. match_screenshots (fst (process_files userId i fs acc)) =
            match_screenshots (fst acc) @ new \<and> (\<forall>r \<in> set new. scored_row r)"
  using assms
proof (induction fs arbitrary: i acc)
  case Nil
  show ?case by simp
next
  case (Cons fe fs)
  from Cons.prems have rest: "\<forall>fe \<in> set fs. fields_present (snd fe)"
    and this_one: "fields_present (snd fe)" by simp_all
  from Cons.IH [OF rest, of "Suc i" "process_file userId i fe acc"] obtain n1 where
    n1: "match_screenshots (fst (process_files userId (Suc i) fs (process_file userId i fe acc)))
         = match_screenshots (fst (process_file userId i fe acc)) @ n1"
        "\<forall>r \<in> set n1. scored_row r" by blast
  from process_file_rows [OF this_one, of userId i acc] obtain n2 where
    n2: "match_screenshots (fst (process_file userId i fe acc)) =
         match_screenshots (fst acc) @ n2" "\<forall>r \<in> set n2. scored_row r" by blast
  have "match_screenshots (fst (process_files userId i (fe # fs) acc)) =
        match_screenshots (fst acc) @ (n2 @ n1)" using n1(1) n2(1) by simp
  moreover have "\<forall>r \<in> set (n2 @ n1). scored_row r" using n1(2) n2(2) by auto
  ultimately show ?case by blast
qed

lemma rows_scored_when_fields_present:
  assumes "\<forall>fe \<in> set files. fields_present (snd fe)"
  shows "\<exists>new. match_screenshots (snd (handleFileUpload userId files w)) =
            match_screenshots w @ new \<and> (\<forall>r \<in> set new. scored_row r)"
proof (cases "\<exists>s f. fst (handleFileUpload userId files w) = Processed s f")
  case False
  then have "snd (handleFileUpload userId files w) = w"
    by (auto simp: handleFileUpload_def split: if_splits prod.splits)
  then show ?thesis by simp
next
  case True
  then have "snd (handleFileUpload userId files w) = fst (process_files userId 0 files (w, 0, 0))"
    by (auto simp: handleFileUpload_def split: if_splits prod.splits)
  with process_files_rows [OF assms, of userId 0 "(w, 0, 0)"] show ?thesis by simp
qed

text \<open>
  C8 says that every row the upload path creates has a non-null placement, non-null
  kills and the points of the two, because a reply containing a null is rejected before
  the insert. The handler does not keep this: for the reply \<^verbatim>\<open>{}\<close>, whose two fields
  are \<^verbatim>\<open>undefined\<close>, the guard \<^verbatim>\<open>placement === null || kills === null\<close> lets the file
  through, the points are \<^verbatim>\<open>NaN\<close>, and the handler inserts a row with no placement, no
  kills and no points and counts a success. (Replies that have both fields do give
  scored rows only: \<open>rows_scored_when_fields_present\<close>.)
\<close>

theorem C8_undefined_reply_inserts_unscored_row:
  "handleFileUpload ''u1'' [demo_file (AnalysisData Undefined Undefined) False]
       (demo_world Map.empty [])
     = (Processed 1 0,
        demo_world Map.empty []
          \<lparr> storage := [demo_name],
            match_screenshots :=
              [\<lparr> team_id = ''A'', player_id = ''u1'', day = 2, screenshot_url = demo_name,
                 placement = None, kills = None, points = None, analyzed_at = 1001 \<rparr>] \<rparr>)
   \<and> \<not> scored_row
         \<lparr> team_id = ''A'', player_id = ''u1'', day = 2, screenshot_url = demo_name,
           placement = None, kills = None, points = None, analyzed_at = 1001 \<rparr>"
proof -
  have ext: "fileExt_of ''shot.png'' = ''png''" by (simp add: fileExt_of_def)
  have "handleFileUpload ''u1'' [demo_file (AnalysisData Undefined Undefined) False]
       (demo_world Map.empty [])
     = (Processed 1 0,
        demo_world Map.empty []
          \<lparr> storage := [demo_name],
            match_screenshots :=
              [\<lparr> team_id = ''A'', player_id = ''u1'', day = 2, screenshot_url = demo_name,
                 placement = None, kills = None, points = None, analyzed_at = 1001 \<rparr>] \<rparr>)"
    by (simp add: handleFileUpload_def currentUploads_def is_image_def process_file.simps
        demo_file_def demo_world_def fileName_of_def ext demo_name_def Let_def
        insert_screenshot_def new_row_def column_of_def points_of_def day_check_def)
  then show ?thesis by (simp add: scored_row_def)
qed

section \<open>The day constraint\<close>

lemma day_check_iff: "day_check d \<longleftrightarrow> d \<in> {1, 2, 3}"
  by (auto simp: day_check_def)

lemma insert_screenshot_day:
  assumes "insert_screenshot b row rows = Inr rows'" and "\<forall>r \<in> set rows. day_check (day r)"
  shows "\<forall>r \<in> set rows'. day_check (day r)"
  using assms by (auto simp: insert_screenshot_def split: if_splits)

lemma update_screenshots_day:
  assumes "update_screenshots b sel chg rows = Inr rows'"
    and "\<forall>r \<in> set rows. day_check (day r)"
  shows "\<forall>r \<in> set rows'. day_check (day r)"
  using assms by (auto simp: update_screenshots_def list_all_iff split: if_splits)

lemma delete_screenshots_day:
  assumes "delete_screenshots b sel rows = Inr rows'"
    and "\<forall>r \<in> set rows. day_check (day r)"
  shows "\<forall>r \<in> set rows'. day_check (day r)"
  using assms by (auto simp: delete_screenshots_def split: if_splits)

lemma apply_db_op_day:
  assumes "apply_db_op op rows = Inr rows'" and "\<forall>r \<in> set rows. day_check (day r)"
  shows "\<forall>r \<in> set rows'. day_check (day r)"
  using assms
  by (cases op) (simp_all add: insert_screenshot_day update_screenshots_day delete_screenshots_day)

lemma run_db_ops_day:
  "\<forall>r \<in> set rows. day_check (day r) \<Longrightarrow> \<forall>r \<in> set (run_db_ops ops rows). day_check (day r)"
proof (induction ops arbitrary: rows)
  case Nil
  then show ?case by simp
next
  case (Cons op ops)
  show ?case
  proof (cases "apply_db_op op rows")
    case (Inl e)
    with Cons show ?thesis by simp
  next
    case (Inr rows')
    from apply_db_op_day [OF Inr Cons.prems] have "\<forall>r \<in> set rows'. day_check (day r)" .
    from Cons.IH [OF this] Inr show ?thesis by simp
  qed
qed

lemma add_day_column_day: "\<forall>r \<in> set (add_day_column rows). day_check (day r)"
  by (simp add: add_day_column_def day_check_def)

lemma process_file_day:
  assumes "\<forall>r \<in> set (match_screenshots (fst acc)). day_check (day r)"
  shows "\<forall>r \<in> set (match_screenshots (fst (process_file userId i fe acc))). day_check (day r)"
proof -
  obtain f env where fe: "fe = (f, env)" by (cases fe)
  obtain w s fl where acc: "acc = (w, s, fl)" by (cases acc)
  show ?thesis using assms unfolding fe acc
    by (auto simp: process_file.simps Let_def insert_screenshot_def
        split: analysis_result.splits option.splits sum.splits if_splits)
qed

lemma process_files_day:
  "\<forall>r \<in> set (match_screenshots (fst acc)). day_check (day r) \<Longrightarrow>
   \<forall>r \<in> set (match_screenshots (fst (process_files userId i fs acc))). day_check (day r)"
proof (induction fs arbitrary: i acc)
  case Nil
  then show ?case by simp
next
  case (Cons fe fs)
  from Cons.IH [OF process_file_day [OF Cons.prems]] show ?case by simp
qed

lemma handleFileUpload_day:
  assumes "\<forall>r \<in> set (match_screenshots w). day_check (day r)"
  shows "\<forall>r \<in> set (match_screenshots (snd (handleFileUpload userId files w))). day_check (day r)"
proof (cases "\<exists>s f. fst (handleFileUpload userId files w) = Processed s f")
  case False
  then have "snd (handleFileUpload userId files w) = w"
    by (auto simp: handleFileUpload_def split: if_splits prod.splits)
  with assms show ?thesis by simp
next
  case True
  then have "snd (handleFileUpload userId files w) = fst (process_files userId 0 files (w, 0, 0))"
    by (auto simp: handleFileUpload_def split: if_splits prod.splits)
  with process_files_day [of "(w, 0, 0)" userId 0 files] assms show ?thesis by simp
qed

text \<open>
  C5. Every row of \<^verbatim>\<open>match_screenshots\<close> has a day in \<open>{1, 2, 3}\<close>: the CHECK constraint of
  the column accepts exactly these values, the migration gives the existing rows day 1,
  every later insert, update, delete and every run of the upload handler keeps the
  property, an insert or an update that would write a day outside the range is rejected
  and leaves the table as it was, and the upload form offers the days 1, 2 and 3 only
  (starting at 1).
\<close>

theorem C5_day_constraint:
  "(day_check d \<longleftrightarrow> d \<in> {1, 2, 3})
   \<and> (\<forall>r \<in> set (run_db_ops ops (add_day_column rows0)). day r \<in> {1, 2, 3})
   \<and> ((\<forall>r \<in> set rows. day r \<in> {1, 2, 3}) \<longrightarrow>
        (\<forall>r \<in> set (run_db_ops ops rows). day r \<in> {1, 2, 3})
        \<and> (\<forall>r \<in> set (match_screenshots
               (snd (handleFileUpload userId files (w\<lparr>match_screenshots := rows\<rparr>)))).
             day r \<in> {1, 2, 3}))
   \<and> (day row \<notin> {1, 2, 3} \<longrightarrow>
        insert_screenshot False row rows = Inl CheckViolation
        \<and> isl (insert_screenshot b row rows)
        \<and> run_db_ops [Insert b row] rows = rows)
   \<and> (x \<in> set rows \<and> sel x \<and> day (chg x) \<notin> {1, 2, 3} \<longrightarrow>
        update_screenshots False sel chg rows = Inl CheckViolation
        \<and> isl (update_screenshots b sel chg rows)
        \<and> run_db_ops [Update b sel chg] rows = rows)
   \<and> set day_options = {1, 2, 3} \<and> initial_selectedDay \<in> {1, 2, 3}"
proof -
  have p1: "\<forall>r \<in> set (run_db_ops ops (add_day_column rows0)). day r \<in> {1, 2, 3}"
    using run_db_ops_day [OF add_day_column_day, of ops rows0] by (simp add: day_check_iff)
  have p2: "(\<forall>r \<in> set (run_db_ops ops rows). day r \<in> {1, 2, 3})
        \<and> (\<forall>r \<in> set (match_screenshots
               (snd (handleFileUpload userId files (w\<lparr>match_screenshots := rows\<rparr>)))).
             day r \<in> {1, 2, 3})"
    if "\<forall>r \<in> set rows. day r \<in> {1, 2, 3}"
  proof -
    from that have inv: "\<forall>r \<in> set rows. day_check (day r)" by (simp add: day_check_iff)
    from run_db_ops_day [OF inv, of ops]
      handleFileUpload_day [of "w\<lparr>match_screenshots := rows\<rparr>" userId files] inv
    show ?thesis by (simp add: day_check_iff)
  qed
  have p3: "insert_screenshot False row rows = Inl CheckViolation
        \<and> isl (insert_screenshot b row rows)
        \<and> run_db_ops [Insert b row] rows = rows" if "day row \<notin> {1, 2, 3}"
  proof -
    from that have "\<not> day_check (day row)" by (simp add: day_check_iff)
    then show ?thesis by (simp add: insert_screenshot_def)
  qed
  have p4: "update_screenshots False sel chg rows = Inl CheckViolation
        \<and> isl (update_screenshots b sel chg rows)
        \<and> run_db_ops [Update b sel chg] rows = rows"
    if "x \<in> set rows" "sel x" "day (chg x) \<notin> {1, 2, 3}"
  proof -
    from that have "\<not> list_all (\<lambda>r. \<not> sel r \<or> day_check (day (chg r))) rows"
      by (auto simp: list_all_iff day_check_iff)
    then show ?thesis by (simp add: update_screenshots_def)
  qed
  have p5: "set day_options = {1, 2, 3}" "initial_selectedDay \<in> {1, 2, 3}"
    by (simp_all add: day_options_def initial_selectedDay_def)
  show ?thesis
    apply (intro conjI impI)
    subgoal by (rule day_check_iff)
    subgoal by (rule p1)
    subgoal using p2 by blast
    subgoal using p2 by blast
    subgoal using p3 by blast
    subgoal using p3 by blast
    subgoal using p3 by blast
    subgoal using p4 by blast
    subgoal using p4 by blast
    subgoal using p4 by blast
    subgoal by (rule p5)
    subgoal by (rule p5)
    done
qed

theorem C5_day_constraint_witness:
  "list_all (\<lambda>r. day r \<in> {1, 2, 3}) [demo_row ''A'' None None None]
   \<and> day (demo_row ''A'' None None None\<lparr>day := 4\<rparr>) \<notin> {1, 2, 3}
   \<and> insert_screenshot False (demo_row ''A'' None None None\<lparr>day := 4\<rparr>)
        [demo_row ''A'' None None None] = Inl CheckViolation
   \<and> demo_row ''A'' None None None \<in> set [demo_row ''A'' None None None]
   \<and> day (demo_row ''A'' None None None\<lparr>day := 0\<rparr>) \<notin> {1, 2, 3}
   \<and> update_screenshots False (\<lambda>r. True) (\<lambda>r. r\<lparr>day := 0\<rparr>)
        [demo_row ''A'' None None None] = Inl CheckViolation
   \<and> list_all (\<lambda>r. day r \<in> {1, 2, 3})
        (run_db_ops
          [Insert False (demo_row ''A'' None None None\<lparr>day := 4\<rparr>),
           Insert False (demo_row ''B'' None None None\<lparr>day := 3\<rparr>),
           Update False (\<lambda>r. True) (\<lambda>r. r\<lparr>day := 0\<rparr>)]
          [demo_row ''A'' None None None])
   \<and> run_db_ops
          [Insert False (demo_row ''A'' None None None\<lparr>day := 4\<rparr>),
           Insert False (demo_row ''B'' None None None\<lparr>day := 3\<rparr>),
           Update False (\<lambda>r. True) (\<lambda>r. r\<lparr>day := 0\<rparr>)]
          [demo_row ''A'' None None None]
       = [demo_row ''A'' None None None, demo_row ''B'' None None None\<lparr>day := 3\<rparr>]"
proof -
  let ?r = "demo_row ''A'' None None None"
  let ?ops = "[Insert False (?r\<lparr>day := 4\<rparr>),
           Insert False (demo_row ''B'' None None None\<lparr>day := 3\<rparr>),
           Update False (\<lambda>r. True) (\<lambda>r. r\<lparr>day := 0\<rparr>)]"
  have inv: "\<forall>r \<in> set [?r]. day r \<in> {1, 2, 3}" by (simp add: demo_row_def)
  have h4: "day (?r\<lparr>day := 4\<rparr>) \<notin> {1, 2, 3}" by simp
  have h0: "?r \<in> set [?r] \<and> True \<and> day (?r\<lparr>day := 0\<rparr>) \<notin> {1, 2, 3}" by simp
  note c = C5_day_constraint [where rows = "[?r]" and row = "?r\<lparr>day := 4\<rparr>" and x = ?r
      and sel = "\<lambda>r. True" and chg = "\<lambda>r. r\<lparr>day := 0\<rparr>" and ops = ?ops and b = False
      and d = 1 and ?rows0.0 = "[]" and files = "[]" and userId = "''u1''"
      and w = "demo_world Map.empty []"]
  note c3 = c [THEN conjunct2, THEN conjunct2, THEN conjunct1, THEN mp, OF inv]
  note c4 = c [THEN conjunct2, THEN conjunct2, THEN conjunct2, THEN conjunct1, THEN mp, OF h4]
  note c5 = c [THEN conjunct2, THEN conjunct2, THEN conjunct2, THEN conjunct2, THEN conjunct1,
      THEN mp, OF h0]
  have run: "run_db_ops ?ops [?r] = [?r, demo_row ''B'' None None None\<lparr>day := 3\<rparr>]"
    by (simp add: insert_screenshot_def update_screenshots_def day_check_def demo_row_def)
  from inv h4 h0 c3 [THEN conjunct1] c4 [THEN conjunct1] c5 [THEN conjunct1] run
  show ?thesis unfolding list_all_iff by blast
qed

section \<open>The access-code login flow\<close>

lemma handleAccessCode_failure:
  assumes "trim accessCode \<noteq> []" and "sign_in env = SignInUser uid"
    and "validate_access_code env (toUpperCase (trim accessCode)) = CodeError
       \<or> validate_access_code env (toUpperCase (trim accessCode)) = CodeNoData
       \<or> session_insert_fails env"
  shows "snd (handleAccessCode env accessCode a) = a\<lparr>current_user := None\<rparr>"
  using assms
  by (auto simp: handleAccessCode_def signOut_def Let_def split: code_result.splits)

lemma handleAccessCode_sessions:
  "sessions (snd (handleAccessCode env accessCode a)) = sessions a
   \<or> (\<exists>uid r t. sign_in env = SignInUser uid
        \<and> validate_access_code env (toUpperCase (trim accessCode)) = CodeData r t
        \<and> \<not> session_insert_fails env
        \<and> handleAccessCode env accessCode a =
            (Welcome r,
             \<lparr> current_user = Some uid,
               sessions = sessions a @
                 [\<lparr> user_id = uid, code_used = toUpperCase (trim accessCode), role = r,
                    session_team_id = t \<rparr>] \<rparr>))"
  by (cases a)
    (auto simp: handleAccessCode_def signOut_def Let_def
      split: sign_in_result.splits code_result.splits)

text \<open>
  C10. In the access-code login, once the anonymous sign-in has succeeded: if
  \<^verbatim>\<open>validate_access_code\<close> fails or returns no data for the entered code, or the insert
  into \<^verbatim>\<open>sessions\<close> fails, the flow signs the user out and the \<^verbatim>\<open>sessions\<close> table is as
  before. The table changes only when validation succeeded, and then by exactly one row
  carrying the signed-in user, the normalised code, and the role and team of the
  validated code.
\<close>

theorem C10_failed_login_signs_out:
  "(trim accessCode \<noteq> [] \<and> sign_in env = SignInUser uid
      \<and> (validate_access_code env (toUpperCase (trim accessCode)) = CodeError
          \<or> validate_access_code env (toUpperCase (trim accessCode)) = CodeNoData
          \<or> session_insert_fails env) \<longrightarrow>
      current_user (snd (handleAccessCode env accessCode a)) = None
      \<and> sessions (snd (handleAccessCode env accessCode a)) = sessions a)
   \<and> (sessions (snd (handleAccessCode env accessCode a)) \<noteq> sessions a \<longrightarrow>
      (\<exists>u r t. sign_in env = SignInUser u
        \<and> validate_access_code env (toUpperCase (trim accessCode)) = CodeData r t
        \<and> sessions (snd (handleAccessCode env accessCode a)) =
            sessions a @
              [\<lparr> user_id = u, code_used = toUpperCase (trim accessCode), role = r,
                 session_team_id = t \<rparr>]))"
proof -
  have A: "current_user (snd (handleAccessCode env accessCode a)) = None
      \<and> sessions (snd (handleAccessCode env accessCode a)) = sessions a"
    if "trim accessCode \<noteq> []" "sign_in env = SignInUser uid"
      "validate_access_code env (toUpperCase (trim accessCode)) = CodeError
          \<or> validate_access_code env (toUpperCase (trim accessCode)) = CodeNoData
          \<or> session_insert_fails env"
    using handleAccessCode_failure [OF that] by simp
  have B: "\<exists>u r t. sign_in env = SignInUser u
        \<and> validate_access_code env (toUpperCase (trim accessCode)) = CodeData r t
        \<and> sessions (snd (handleAccessCode env accessCode a)) =
            sessions a @
              [\<lparr> user_id = u, code_used = toUpperCase (trim accessCode), role = r,
                 session_team_id = t \<rparr>]"
    if "sessions (snd (handleAccessCode env accessCode a)) \<noteq> sessions a"
    using handleAccessCode_sessions [of env accessCode a] that by auto
  from A B show ?thesis by blast
qed

lemma demo_code: "toUpperCase (trim '' admin1 '') = ''ADMIN1''" "trim '' admin1 '' \<noteq> []"
  by code_simp+

theorem C10_failed_login_signs_out_witness:
  "trim '' admin1 '' \<noteq> []
   \<and> sign_in (demo_login (CodeData ''admin'' None) True) = SignInUser ''anon1''
   \<and> session_insert_fails (demo_login (CodeData ''admin'' None) True)
   \<and> current_user (snd (handleAccessCode (demo_login (CodeData ''admin'' None) True)
        '' admin1 '' demo_auth)) = None
   \<and> sessions (snd (handleAccessCode (demo_login (CodeData ''admin'' None) True)
        '' admin1 '' demo_auth)) = []
   \<and> sessions (snd (handleAccessCode (demo_login (CodeData ''admin'' None) False)
        '' admin1 '' demo_auth))
       = [\<lparr> user_id = ''anon1'', code_used = ''ADMIN1'', role = ''admin'',
            session_team_id = None \<rparr>]"
proof -
  let ?bad = "demo_login (CodeData ''admin'' None) True"
  let ?good = "demo_login (CodeData ''admin'' None) False"
  have h: "trim '' admin1 '' \<noteq> [] \<and> sign_in ?bad = SignInUser ''anon1''
      \<and> (validate_access_code ?bad (toUpperCase (trim '' admin1 '')) = CodeError
          \<or> validate_access_code ?bad (toUpperCase (trim '' admin1 '')) = CodeNoData
          \<or> session_insert_fails ?bad)"
    by (simp add: demo_code demo_login_def)
  have e: "sessions demo_auth = []" by (simp add: demo_auth_def)
  from C10_failed_login_signs_out [where env = ?bad and accessCode = "'' admin1 ''"
      and uid = "''anon1''" and a = demo_auth, THEN conjunct1, THEN mp, OF h]
  have p1: "current_user (snd (handleAccessCode ?bad '' admin1 '' demo_auth)) = None
      \<and> sessions (snd (handleAccessCode ?bad '' admin1 '' demo_auth)) = []"
    by (simp add: e)
  have changed: "sessions (snd (handleAccessCode ?good '' admin1 '' demo_auth))
      \<noteq> sessions demo_auth"
    by (simp add: handleAccessCode_def demo_code demo_login_def demo_auth_def)
  from C10_failed_login_signs_out [where env = ?good and accessCode = "'' admin1 ''"
      and uid = "''anon1''" and a = demo_auth, THEN conjunct2, THEN mp, OF changed]
  have p2: "sessions (snd (handleAccessCode ?good '' admin1 '' demo_auth))
       = [\<lparr> user_id = ''anon1'', code_used = ''ADMIN1'', role = ''admin'',
            session_team_id = None \<rparr>]"
    by (auto simp: demo_code demo_login_def e)
  from h p1 p2 show ?thesis by (simp add: demo_login_def)
qed

end
